theory Spec2Isabelle
  imports Main "HOL-Library.Word"
begin

section \<open>The blocks provider of the deliver service\<close>

text \<open>
  A shallow embedding of \<^verbatim>\<open>core/deliverservice/blocksprovider/blocksprovider.go\<close>.
  The relay pulls responses from the ordering service over a stream, verifies every block
  and hands it to the gossip layer. Its collaborators (stream client, message crypto
  service, gossip adapter, logger) are interfaces whose implementations live elsewhere:
  the model records every call the relay makes on them, with its arguments, in a trace,
  and takes what they answer from a schedule.
\<close>

subsection \<open>Messages\<close>

text \<open>
  Go strings and byte slices are both sequences of bytes, and so is an Isabelle
  \<^typ>\<open>string\<close>; the conversions \<^verbatim>\<open>[]byte(chainID)\<close> and
  \<^verbatim>\<open>gossipcommon.ChainID(b.chainID)\<close> keep the bytes as they are. A Go
  \<^verbatim>\<open>error\<close> is represented by its message; a nil error is \<^term>\<open>None\<close>.
\<close>

type_synonym bytes = string
type_synonym error = string

text \<open>
  Modelled from the spec: the enumeration \<^verbatim>\<open>common.Status\<close> is declared in
  \<^verbatim>\<open>protos/common\<close>, outside the source file. The relay only compares a status with
  \<^verbatim>\<open>common.Status_SUCCESS\<close> (``the status indicates success'', ``any other status''),
  so every other code \<open>c\<close> is kept as \<open>Status_other c\<close>.
\<close>

datatype Status = Status_SUCCESS | Status_other int

text \<open>
  Modelled from the spec: the protobuf messages \<^verbatim>\<open>common.Block\<close>,
  \<^verbatim>\<open>common.BlockHeader\<close> and \<^verbatim>\<open>orderer.DeliverResponse\<close> are declared
  outside the source file. A Block carries ``a sequence number plus a binary body''; the
  Delivery Response is ``a tagged union: a status code, a Block, or an unrecognized
  variant''. The body is the field \<open>BlockData\<close>, named after its Go type. Pointer
  fields that the relay dereferences are options, \<^term>\<open>None\<close> being the nil pointer.
  The wrapper structs of the status and block variants are taken to be non-nil, as a
  decoder builds them. The last variant stands for a nil \<^verbatim>\<open>Type\<close> and for every
  type the type switch does not list.
\<close>

record BlockHeader =
  Number :: "64 word"
  PreviousHash :: bytes
  DataHash :: bytes

record Block =
  Header :: "BlockHeader option"
  BlockData :: "bytes list"

datatype isDeliverResponse_Type =
    DeliverResponse_Status Status
  | DeliverResponse_Block "Block option"
  | DeliverResponse_unrecognized

record DeliverResponse =
  Type :: isDeliverResponse_Type

text \<open>
  Modelled from the spec: \<^verbatim>\<open>gossip_proto.Payload\<close>, \<^verbatim>\<open>gossip_proto.DataMessage\<close>
  and \<^verbatim>\<open>gossip_proto.GossipMessage\<close> are declared in \<^verbatim>\<open>protos/gossip\<close>; only the
  fields that \<^verbatim>\<open>createPayload\<close> and \<^verbatim>\<open>createGossipMsg\<close> set are kept. The tag
  enumeration lists the values of \<^verbatim>\<open>GossipMessage_Tag\<close>.
\<close>

record Payload =
  SeqNum :: "64 word"
  Data :: bytes

record DataMessage =
  Payload :: "Payload option"

datatype isGossipMessage_Content = GossipMessage_DataMsg "DataMessage option"

datatype GossipMessage_Tag =
    GossipMessage_UNDEFINED
  | GossipMessage_EMPTY
  | GossipMessage_ORG_ONLY
  | GossipMessage_CHAN_ONLY
  | GossipMessage_CHAN_AND_ORG
  | GossipMessage_CHAN_OR_ORG

record GossipMessage =
  Nonce :: "64 word"
  Tag :: GossipMessage_Tag
  Channel :: bytes
  Content :: "isGossipMessage_Content option"

text \<open>
  Modelled from the spec: \<^verbatim>\<open>discovery.NetworkMember\<close> is a ``member descriptor''
  declared in the gossip package; the relay only takes the length of a slice of them.
\<close>

record NetworkMember =
  Endpoint :: string
  PKIid :: bytes

subsection \<open>Payload and gossip message\<close>

definition createPayload :: "64 word \<Rightarrow> bytes \<Rightarrow> Payload" where
  "createPayload seqNum marshaledBlock = \<lparr>SeqNum = seqNum, Data = marshaledBlock\<rparr>"

definition createGossipMsg :: "string \<Rightarrow> Payload \<Rightarrow> GossipMessage" where
  "createGossipMsg chainID payload =
     \<lparr>Nonce = 0,
      Tag = GossipMessage_CHAN_AND_ORG,
      Channel = chainID,
      Content = Some (GossipMessage_DataMsg (Some \<lparr>Payload = Some payload\<rparr>))\<rparr>"

subsection \<open>The relay and its liveness flag\<close>

text \<open>
  The struct \<^verbatim>\<open>blocksProviderImpl\<close>. Its fields \<^verbatim>\<open>client\<close>, \<^verbatim>\<open>gossip\<close> and
  \<^verbatim>\<open>mcs\<close> are references to the collaborators and never change; the model keeps the
  two fields that hold data. The field \<^verbatim>\<open>done\<close> is an \<^verbatim>\<open>int32\<close>; it is called
  \<open>done_flag\<close> here because \<open>done\<close> is a reserved word.
\<close>

record blocksProviderImpl =
  chainID :: string
  done_flag :: "32 word"

definition NewBlocksProvider :: "string \<Rightarrow> blocksProviderImpl" where
  "NewBlocksProvider c = \<lparr>chainID = c, done_flag = 0\<rparr>"

definition isDone :: "blocksProviderImpl \<Rightarrow> bool" where
  "isDone b = (done_flag b = 1)"

subsection \<open>Calls on the collaborators\<close>

datatype log_level = Warning | Error | Debug

datatype log_arg =
    Arg_string string
  | Arg_uint64 "64 word"
  | Arg_int int
  | Arg_msg isDeliverResponse_Type

text \<open>
  Everything the relay does to the outside: the calls on the stream client, the verifier
  and the gossip adapter with their arguments, and the log lines with their level, their
  format string and their arguments.
\<close>

datatype action =
    Call_Recv
  | Call_Close
  | Call_VerifyBlock bytes "64 word" bytes
  | Call_PeersOfChannel bytes
  | Call_AddPayload string Payload
  | Call_Gossip GossipMessage
  | Log log_level string "log_arg list"

text \<open>
  What the collaborators answer during one iteration of the loop: the verdict of
  \<^verbatim>\<open>VerifyBlock\<close>, the members returned by \<^verbatim>\<open>PeersOfChannel\<close>, the error returned by
  \<^verbatim>\<open>AddPayload\<close>. \<^verbatim>\<open>Recv\<close> returns a pair \<^verbatim>\<open>(msg, err)\<close>: \<open>Inl err\<close> is a
  non-nil error, \<open>Inr msg\<close> a nil error with the message pointer \<open>msg\<close>.
\<close>

record replies =
  VerifyBlock_reply :: "error option"
  PeersOfChannel_reply :: "NetworkMember list"
  AddPayload_reply :: "error option"

type_synonym recv_result = "error + DeliverResponse option"

subsection \<open>One iteration of the receive loop\<close>

text \<open>
  How the body of the loop leaves: \<^verbatim>\<open>continue\<close> or falling off the end of the
  \<^verbatim>\<open>switch\<close>, \<^verbatim>\<open>return\<close>, or a run-time panic (a nil pointer dereference).
\<close>

datatype control = Continue | Return | Panic

text \<open>
  The body of the \<^verbatim>\<open>for\<close> loop of \<^verbatim>\<open>DeliverBlocks\<close> from the moment \<^verbatim>\<open>Recv\<close>
  has returned: the actions it performs, in order, and how it leaves. The serializer
  \<^verbatim>\<open>proto.Marshal\<close> is a library function outside the source file and is a parameter.
  The sequence number is read through \<^verbatim>\<open>t.Block.Header.Number\<close> before anything else
  in the block case; \<^verbatim>\<open>msg.Type\<close> dereferences the message pointer.
\<close>

definition DeliverBlocks_body ::
  "(Block \<Rightarrow> error + bytes) \<Rightarrow> blocksProviderImpl \<Rightarrow> recv_result \<Rightarrow> replies \<Rightarrow> action list \<times> control" where
  "DeliverBlocks_body Marshal b r rep =
     (case r of
        Inl err \<Rightarrow> ([Log Warning ''Receive error: %s'' [Arg_string err]], Return)
      | Inr None \<Rightarrow> ([], Panic)
      | Inr (Some msg) \<Rightarrow>
          (case Type msg of
             DeliverResponse_Status status \<Rightarrow>
               if status = Status_SUCCESS
               then ([Log Warning ''ERROR! Received success for a seek that should never complete'' []],
                     Return)
               else ([Log Warning ''Got error '' [Arg_msg (Type msg)]], Continue)
           | DeliverResponse_Block None \<Rightarrow> ([], Panic)
           | DeliverResponse_Block (Some block) \<Rightarrow>
               (case Header block of
                  None \<Rightarrow> ([], Panic)
                | Some header \<Rightarrow>
                    let seqNum = Number header in
                    (case Marshal block of
                       Inl err \<Rightarrow>
                         ([Log Error ''Error serializing block with sequence number %d, due to %s''
                             [Arg_uint64 seqNum, Arg_string err]],
                          Continue)
                     | Inr marshaledBlock \<Rightarrow>
                         (case VerifyBlock_reply rep of
                            Some err \<Rightarrow>
                              ([Call_VerifyBlock (chainID b) seqNum marshaledBlock,
                                Log Error ''Error verifying block with sequnce number %d, due to %s''
                                  [Arg_uint64 seqNum, Arg_string err]],
                               Continue)
                          | None \<Rightarrow>
                              let numberOfPeers = int (length (PeersOfChannel_reply rep));
                                  payload = createPayload seqNum marshaledBlock;
                                  gossipMsg = createGossipMsg (chainID b) payload
                              in ([Call_VerifyBlock (chainID b) seqNum marshaledBlock,
                                   Call_PeersOfChannel (chainID b),
                                   Log Debug ''Adding payload locally, buffer seqNum = [%d], peers number [%d]''
                                     [Arg_uint64 seqNum, Arg_int numberOfPeers],
                                   Call_AddPayload (chainID b) payload,
                                   Log Debug ''Gossiping block [%d], peers number [%d]''
                                     [Arg_uint64 seqNum, Arg_int numberOfPeers],
                                   Call_Gossip gossipMsg],
                                  Continue))))
           | DeliverResponse_unrecognized \<Rightarrow>
               ([Log Warning ''Received unknown: '' [Arg_msg (Type msg)]], Return)))"

subsection \<open>The loop, with \<^verbatim>\<open>Stop\<close> running beside it\<close>

text \<open>
  \<^verbatim>\<open>DeliverBlocks\<close> runs on one goroutine and \<^verbatim>\<open>Stop\<close> is called from another.
  The loop goroutine is either at the head of the loop, about to evaluate
  \<^verbatim>\<open>!b.isDone()\<close>, or blocked inside \<^verbatim>\<open>client.Recv()\<close>, or it has left
  \<^verbatim>\<open>DeliverBlocks\<close>, by a \<^verbatim>\<open>return\<close> or by a panic.
\<close>

datatype location = LoopHead | InRecv | Returned | Panicked

record world =
  relay :: blocksProviderImpl
  loc :: location
  trace :: "action list"

definition perform :: "action list \<Rightarrow> world \<Rightarrow> world" where
  "perform acts w = w\<lparr>trace := trace w @ acts\<rparr>"

text \<open>\<^verbatim>\<open>Stop\<close>: the atomic store of 1 into \<^verbatim>\<open>done\<close>, then \<^verbatim>\<open>b.client.Close()\<close>.\<close>

definition Stop :: "world \<Rightarrow> world" where
  "Stop w = perform [Call_Close] (w\<lparr>relay := (relay w)\<lparr>done_flag := 1\<rparr>\<rparr>)"

text \<open>
  Leaving the body of the loop. \<^verbatim>\<open>defer b.client.Close()\<close> is the first statement of
  \<^verbatim>\<open>DeliverBlocks\<close>, so the deferred call runs whenever the function returns and also
  when it panics.
\<close>

definition leave :: "control \<Rightarrow> world \<Rightarrow> world" where
  "leave c w =
     (case c of
        Continue \<Rightarrow> w\<lparr>loc := LoopHead\<rparr>
      | Return \<Rightarrow> perform [Call_Close] (w\<lparr>loc := Returned\<rparr>)
      | Panic \<Rightarrow> perform [Call_Close] (w\<lparr>loc := Panicked\<rparr>))"

text \<open>
  A schedule lists what happens, in order: another goroutine runs \<^verbatim>\<open>Stop()\<close>; the loop
  goroutine evaluates the loop condition and, when the relay is not done, calls
  \<^verbatim>\<open>Recv\<close>; the pending \<^verbatim>\<open>Recv\<close> returns and the loop goroutine runs the body up to
  the next loop head, the collaborators answering as given. An event of the loop goroutine
  that does not fit where the goroutine is changes nothing. The two statements of
  \<^verbatim>\<open>Stop\<close> are taken as one step, and so are the loop condition and the call of
  \<^verbatim>\<open>Recv\<close> that follows it. A schedule is finite: a run that ends at the loop head
  or inside \<^verbatim>\<open>Recv\<close> is a loop that is still going.
\<close>

datatype event = Ev_Stop | Ev_Check | Ev_Recv recv_result replies

fun step :: "(Block \<Rightarrow> error + bytes) \<Rightarrow> event \<Rightarrow> world \<Rightarrow> world" where
  "step Marshal Ev_Stop w = Stop w"
| "step Marshal Ev_Check w =
     (if loc w = LoopHead
      then (if isDone (relay w) then leave Return w
            else perform [Call_Recv] (w\<lparr>loc := InRecv\<rparr>))
      else w)"
| "step Marshal (Ev_Recv r rep) w =
     (if loc w = InRecv
      then (let (acts, c) = DeliverBlocks_body Marshal (relay w) r rep
            in leave c (perform acts w))
      else w)"

fun run :: "(Block \<Rightarrow> error + bytes) \<Rightarrow> event list \<Rightarrow> world \<Rightarrow> world" where
  "run Marshal [] w = w"
| "run Marshal (e # es) w = run Marshal es (step Marshal e w)"

text \<open>\<^verbatim>\<open>DeliverBlocks\<close> called on the relay \<open>b\<close>, nothing having happened before.\<close>

definition DeliverBlocks :: "(Block \<Rightarrow> error + bytes) \<Rightarrow> event list \<Rightarrow> blocksProviderImpl \<Rightarrow> world" where
  "DeliverBlocks Marshal es b = run Marshal es \<lparr>relay = b, loc = LoopHead, trace = []\<rparr>"

subsection \<open>Reading a trace\<close>

definition exited :: "world \<Rightarrow> bool" where
  "exited w = (loc w = Returned \<or> loc w = Panicked)"

fun is_call :: "action \<Rightarrow> bool" where
  "is_call (Log lvl fmt args) = False"
| "is_call a = True"

definition calls :: "action list \<Rightarrow> action list" where
  "calls tr = filter is_call tr"

fun verified_of :: "action \<Rightarrow> 64 word list" where
  "verified_of (Call_VerifyBlock c n bs) = [n]"
| "verified_of a = []"

fun added_of :: "action \<Rightarrow> Payload list" where
  "added_of (Call_AddPayload c p) = [p]"
| "added_of a = []"

fun gossiped_of :: "action \<Rightarrow> GossipMessage list" where
  "gossiped_of (Call_Gossip g) = [g]"
| "gossiped_of a = []"

text \<open>
  The sequence numbers presented to the verifier, the payloads added to the buffer and the
  messages gossiped, each in the order of the calls.
\<close>

definition verified :: "action list \<Rightarrow> 64 word list" where
  "verified tr = concat (map verified_of tr)"

definition added :: "action list \<Rightarrow> Payload list" where
  "added tr = concat (map added_of tr)"

definition gossiped :: "action list \<Rightarrow> GossipMessage list" where
  "gossiped tr = concat (map gossiped_of tr)"

text \<open>
  The payload inside a gossip message, when there is one.
\<close>

definition payload_of :: "GossipMessage \<Rightarrow> Payload option" where
  "payload_of g =
     (case Content g of
        None \<Rightarrow> None
      | Some (GossipMessage_DataMsg None) \<Rightarrow> None
      | Some (GossipMessage_DataMsg (Some d)) \<Rightarrow> Payload d)"

subsection \<open>Schedules and sample collaborators\<close>

text \<open>
  The results \<^verbatim>\<open>Recv\<close> returns with a nil error: a response carrying a block, and a
  response carrying a status.
\<close>

definition block_msg :: "Block \<Rightarrow> recv_result" where
  "block_msg block = Inr (Some \<lparr>Type = DeliverResponse_Block (Some block)\<rparr>)"

definition status_msg :: "Status \<Rightarrow> recv_result" where
  "status_msg status = Inr (Some \<lparr>Type = DeliverResponse_Status status\<rparr>)"

text \<open>
  One undisturbed iteration of the loop goroutine: it evaluates the loop condition, calls
  \<^verbatim>\<open>Recv\<close>, and \<^verbatim>\<open>Recv\<close> returns the block. A list of blocks received one after the
  other, each with the answers of the collaborators, is the list of these iterations.
\<close>

definition delivery :: "Block \<times> replies \<Rightarrow> event list" where
  "delivery item = [Ev_Check, Ev_Recv (block_msg (fst item)) (snd item)]"

definition deliveries :: "(Block \<times> replies) list \<Rightarrow> event list" where
  "deliveries items = concat (map delivery items)"

text \<open>
  Two schedules are the same up to what \<^verbatim>\<open>PeersOfChannel\<close> and \<^verbatim>\<open>AddPayload\<close>
  return when they are equal once these two answers are blanked.
\<close>

definition forget_replies :: "replies \<Rightarrow> replies" where
  "forget_replies rep = rep\<lparr>PeersOfChannel_reply := [], AddPayload_reply := None\<rparr>"

fun forget :: "event \<Rightarrow> event" where
  "forget (Ev_Recv r rep) = Ev_Recv r (forget_replies rep)"
| "forget Ev_Stop = Ev_Stop"
| "forget Ev_Check = Ev_Check"

text \<open>
  Sample collaborators for concrete runs: a serializer that joins the body of a block and
  rejects an empty body, a block with sequence number \<open>n\<close>, and replies that accept or
  reject.
\<close>

definition sample_Marshal :: "Block \<Rightarrow> error + bytes" where
  "sample_Marshal block =
     (if BlockData block = [] then Inl ''empty block'' else Inr (concat (BlockData block)))"

definition sample_block :: "64 word \<Rightarrow> Block" where
  "sample_block n =
     \<lparr>Header = Some \<lparr>Number = n, PreviousHash = [], DataHash = []\<rparr>, BlockData = [''tx'']\<rparr>"

definition accepting :: replies where
  "accepting = \<lparr>VerifyBlock_reply = None, PeersOfChannel_reply = [], AddPayload_reply = None\<rparr>"

definition rejecting :: replies where
  "rejecting =
     \<lparr>VerifyBlock_reply = Some ''bad signature'', PeersOfChannel_reply = [], AddPayload_reply = None\<rparr>"

section \<open>Properties\<close>

subsection \<open>Auxiliary facts\<close>

lemma run_append: "run M (es @ es') w = run M es' (run M es w)"
  by (induction es arbitrary: w) simp_all

lemma perform_fields [simp]:
  "relay (perform acts w) = relay w"
  "loc (perform acts w) = loc w"
  "trace (perform acts w) = trace w @ acts"
  by (simp_all add: perform_def)

lemma Stop_fields [simp]:
  "loc (Stop w) = loc w"
  "trace (Stop w) = trace w @ [Call_Close]"
  "done_flag (relay (Stop w)) = 1"
  "chainID (relay (Stop w)) = chainID (relay w)"
  by (simp_all add: Stop_def)

lemma leave_fields [simp]:
  "relay (leave c w) = relay w"
  "loc (leave c w) = (case c of Continue \<Rightarrow> LoopHead | Return \<Rightarrow> Returned | Panic \<Rightarrow> Panicked)"
  "trace (leave c w) =
     trace w @ (case c of Continue \<Rightarrow> [] | Return \<Rightarrow> [Call_Close] | Panic \<Rightarrow> [Call_Close])"
  by (simp_all add: leave_def split: control.splits)

text \<open>The body of the loop never touches the stream client.\<close>

lemma body_no_stream_call:
  "Call_Close \<notin> set (fst (DeliverBlocks_body M b r rep))"
  "Call_Recv \<notin> set (fst (DeliverBlocks_body M b r rep))"
  by (auto simp: DeliverBlocks_body_def Let_def
      split: sum.splits option.splits isDeliverResponse_Type.splits)

text \<open>What the return of a pending \<^verbatim>\<open>Recv\<close> does to the world.\<close>

lemma step_received:
  assumes "loc w = InRecv"
  shows "relay (step M (Ev_Recv r rep) w) = relay w"
    and "loc (step M (Ev_Recv r rep) w) =
          (case snd (DeliverBlocks_body M (relay w) r rep) of
             Continue \<Rightarrow> LoopHead | Return \<Rightarrow> Returned | Panic \<Rightarrow> Panicked)"
    and "trace (step M (Ev_Recv r rep) w) =
          trace w @ fst (DeliverBlocks_body M (relay w) r rep) @
          (case snd (DeliverBlocks_body M (relay w) r rep) of
             Continue \<Rightarrow> [] | Return \<Rightarrow> [Call_Close] | Panic \<Rightarrow> [Call_Close])"
  using assms by (simp_all add: split_beta)

text \<open>
  Once \<^verbatim>\<open>DeliverBlocks\<close> has left, nothing but \<^verbatim>\<open>Stop\<close> acts any more, and all it
  adds to the trace is its own \<^verbatim>\<open>Close\<close>.
\<close>

lemma step_exited:
  assumes "exited w"
  shows "loc (step M e w) = loc w"
    and "trace (step M e w) = trace w @ (if e = Ev_Stop then [Call_Close] else [])"
  using assms by (cases e; auto simp: exited_def)+

lemma run_exited:
  assumes "exited w"
  shows "loc (run M es w) = loc w \<and>
         trace (run M es w) = trace w @ replicate (count_list es Ev_Stop) Call_Close"
  using assms
proof (induction es arbitrary: w)
  case Nil
  then show ?case by simp
next
  case (Cons e es)
  have "exited (step M e w)"
    using Cons.prems step_exited(1) [OF Cons.prems, of M e] by (simp add: exited_def)
  from Cons.IH [OF this] step_exited [OF Cons.prems, of M e]
  show ?case by (auto simp: replicate_app_Cons_same)
qed

lemma count_replicate_other: "a \<noteq> b \<Longrightarrow> count_list (replicate n a) b = 0"
  by (induction n) simp_all

lemma concat_replicate_Nil: "concat (replicate n []) = []"
  by (induction n) simp_all

lemma exited_quiet:
  assumes "exited w"
  shows "loc (run M es w) = loc w"
    and "count_list (trace (run M es w)) Call_Recv = count_list (trace w) Call_Recv"
    and "added (trace (run M es w)) = added (trace w)"
    and "gossiped (trace (run M es w)) = gossiped (trace w)"
    and "verified (trace (run M es w)) = verified (trace w)"
  using run_exited [OF assms, of M es]
  by (simp_all add: count_replicate_other added_def gossiped_def verified_def concat_replicate_Nil)

text \<open>Reading a trace piece by piece; log lines carry no call.\<close>

lemma reading_append [simp]:
  "added (tr @ tr') = added tr @ added tr'"
  "gossiped (tr @ tr') = gossiped tr @ gossiped tr'"
  "verified (tr @ tr') = verified tr @ verified tr'"
  "calls (tr @ tr') = calls tr @ calls tr'"
  by (simp_all add: added_def gossiped_def verified_def calls_def)

lemma reading_of_log:
  "\<not> is_call a \<Longrightarrow> added_of a = [] \<and> gossiped_of a = [] \<and> verified_of a = []"
  by (cases a) simp_all

lemma reading_calls:
  "added tr = added (calls tr)"
  "gossiped tr = gossiped (calls tr)"
  "verified tr = verified (calls tr)"
  by (induction tr) (simp_all add: added_def gossiped_def verified_def calls_def reading_of_log)

text \<open>The body of the loop on a block that is serialized and accepted, and on one that is not.\<close>

lemma body_accepted:
  assumes "Header block = Some header" and "Marshal block = Inr marshaledBlock"
    and "VerifyBlock_reply rep = None"
  shows "DeliverBlocks_body Marshal b (block_msg block) rep =
     ([Call_VerifyBlock (chainID b) (Number header) marshaledBlock,
       Call_PeersOfChannel (chainID b),
       Log Debug ''Adding payload locally, buffer seqNum = [%d], peers number [%d]''
         [Arg_uint64 (Number header), Arg_int (int (length (PeersOfChannel_reply rep)))],
       Call_AddPayload (chainID b) (createPayload (Number header) marshaledBlock),
       Log Debug ''Gossiping block [%d], peers number [%d]''
         [Arg_uint64 (Number header), Arg_int (int (length (PeersOfChannel_reply rep)))],
       Call_Gossip (createGossipMsg (chainID b) (createPayload (Number header) marshaledBlock))],
      Continue)"
  using assms by (simp add: DeliverBlocks_body_def block_msg_def Let_def)

lemma body_rejected:
  assumes "Header block = Some header"
    and "isl (Marshal block) \<or> VerifyBlock_reply rep \<noteq> None"
  shows "snd (DeliverBlocks_body Marshal b (block_msg block) rep) = Continue"
    and "added (fst (DeliverBlocks_body Marshal b (block_msg block) rep)) = []"
    and "gossiped (fst (DeliverBlocks_body Marshal b (block_msg block) rep)) = []"
  using assms
  by (auto simp: DeliverBlocks_body_def block_msg_def added_def gossiped_def Let_def
      split: sum.splits option.splits)

subsection \<open>Receive errors\<close>

text \<open>
  C5. Whenever \<^verbatim>\<open>Recv\<close> returns a non-nil error, \<^verbatim>\<open>DeliverBlocks\<close> logs a warning
  and returns at once: the iteration adds nothing to the trace but the log line and the
  deferred \<^verbatim>\<open>Close\<close>, and whatever is scheduled afterwards, the loop stays returned,
  calls \<^verbatim>\<open>Recv\<close> no more, adds no payload and gossips no message.
\<close>

theorem recv_error_returns:
  assumes "loc w = InRecv"
  shows "let w' = step M (Ev_Recv (Inl err) rep) w in
           loc w' = Returned \<and>
           trace w' = trace w @ [Log Warning ''Receive error: %s'' [Arg_string err], Call_Close] \<and>
           loc (run M es w') = Returned \<and>
           count_list (trace (run M es w')) Call_Recv = count_list (trace w) Call_Recv \<and>
           added (trace (run M es w')) = added (trace w) \<and>
           gossiped (trace (run M es w')) = gossiped (trace w)"
proof -
  define w' where "w' = step M (Ev_Recv (Inl err) rep) w"
  have body: "DeliverBlocks_body M (relay w) (Inl err) rep =
                ([Log Warning ''Receive error: %s'' [Arg_string err]], Return)"
    by (simp add: DeliverBlocks_body_def)
  have l: "loc w' = Returned"
    and t: "trace w' = trace w @ [Log Warning ''Receive error: %s'' [Arg_string err], Call_Close]"
    unfolding w'_def using step_received [OF assms, of M "Inl err" rep] by (simp_all add: body)
  have "exited w'" by (simp add: exited_def l)
  from exited_quiet [OF this, of M es] l t show ?thesis
    unfolding w'_def [symmetric] Let_def
    by (simp add: added_def gossiped_def)
qed

text \<open>
  The scenario of the specification: the first call of \<^verbatim>\<open>Recv\<close> returns an error; no
  payload, immediate exit, stream closed, and a block scheduled afterwards is not received.
\<close>

theorem recv_error_returns_witness:
  "loc (DeliverBlocks sample_Marshal [Ev_Check] (NewBlocksProvider ''ch'')) = InRecv \<and>
   trace (step sample_Marshal (Ev_Recv (Inl ''EOF'') accepting)
            (DeliverBlocks sample_Marshal [Ev_Check] (NewBlocksProvider ''ch''))) =
     [Call_Recv, Log Warning ''Receive error: %s'' [Arg_string ''EOF''], Call_Close] \<and>
   loc (run sample_Marshal [Ev_Check, Ev_Recv (block_msg (sample_block 1)) accepting]
          (step sample_Marshal (Ev_Recv (Inl ''EOF'') accepting)
             (DeliverBlocks sample_Marshal [Ev_Check] (NewBlocksProvider ''ch'')))) = Returned \<and>
   added (trace (run sample_Marshal [Ev_Check, Ev_Recv (block_msg (sample_block 1)) accepting]
          (step sample_Marshal (Ev_Recv (Inl ''EOF'') accepting)
             (DeliverBlocks sample_Marshal [Ev_Check] (NewBlocksProvider ''ch''))))) = []"
proof -
  have h: "loc (DeliverBlocks sample_Marshal [Ev_Check] (NewBlocksProvider ''ch'')) = InRecv"
    by (simp add: DeliverBlocks_def NewBlocksProvider_def isDone_def)
  have t: "trace (DeliverBlocks sample_Marshal [Ev_Check] (NewBlocksProvider ''ch'')) = [Call_Recv]"
    by (simp add: DeliverBlocks_def NewBlocksProvider_def isDone_def)
  from recv_error_returns [OF h, of sample_Marshal "''EOF''" accepting
      "[Ev_Check, Ev_Recv (block_msg (sample_block 1)) accepting]"]
  show ?thesis
    unfolding Let_def t using h by (simp add: added_def)
qed

subsection \<open>Status messages\<close>

text \<open>
  C3. On a status message the loop terminates if and only if the status is success, and
  then no further \<^verbatim>\<open>Recv\<close> is ever issued. A status with any other code is logged as a
  warning and the loop is back at its head; unless the relay has been stopped, the next
  thing it does is call \<^verbatim>\<open>Recv\<close> again.
\<close>

theorem status_terminates_iff_success:
  assumes "loc w = InRecv"
  shows "let w' = step M (Ev_Recv (status_msg status) rep) w in
           (exited w' \<longleftrightarrow> status = Status_SUCCESS) \<and>
           relay w' = relay w \<and>
           (status = Status_SUCCESS \<longrightarrow>
              loc w' = Returned \<and>
              loc (run M es w') = Returned \<and>
              count_list (trace (run M es w')) Call_Recv = count_list (trace w) Call_Recv) \<and>
           (status \<noteq> Status_SUCCESS \<longrightarrow>
              loc w' = LoopHead \<and>
              trace w' = trace w @ [Log Warning ''Got error '' [Arg_msg (DeliverResponse_Status status)]] \<and>
              (\<not> isDone (relay w) \<longrightarrow>
                 loc (step M Ev_Check w') = InRecv \<and>
                 trace (step M Ev_Check w') = trace w' @ [Call_Recv]))"
proof -
  define w' where "w' = step M (Ev_Recv (status_msg status) rep) w"
  note rcv = step_received [OF assms, of M "status_msg status" rep, folded w'_def]
  show ?thesis
  proof (cases "status = Status_SUCCESS")
    case True
    have body: "DeliverBlocks_body M (relay w) (status_msg status) rep =
        ([Log Warning ''ERROR! Received success for a seek that should never complete'' []], Return)"
      by (simp add: DeliverBlocks_body_def status_msg_def True)
    have l: "loc w' = Returned" and r: "relay w' = relay w"
      and t: "count_list (trace w') Call_Recv = count_list (trace w) Call_Recv"
      using rcv by (simp_all add: body)
    have "exited w'" by (simp add: exited_def l)
    from exited_quiet(1,2) [OF this, of M es] l r t True show ?thesis
      unfolding w'_def [symmetric] Let_def by (simp add: exited_def)
  next
    case False
    have body: "DeliverBlocks_body M (relay w) (status_msg status) rep =
        ([Log Warning ''Got error '' [Arg_msg (DeliverResponse_Status status)]], Continue)"
      by (simp add: DeliverBlocks_body_def status_msg_def False)
    have l: "loc w' = LoopHead" and r: "relay w' = relay w"
      and t: "trace w' = trace w @ [Log Warning ''Got error '' [Arg_msg (DeliverResponse_Status status)]]"
      using rcv by (simp_all add: body)
    from l r t False show ?thesis
      unfolding w'_def [symmetric] Let_def by (simp add: exited_def)
  qed
qed

text \<open>A success status ends the loop; the code 503 does not, and the loop receives again.\<close>

theorem status_terminates_iff_success_witness:
  "loc (DeliverBlocks sample_Marshal [Ev_Check] (NewBlocksProvider ''ch'')) = InRecv \<and>
   loc (step sample_Marshal (Ev_Recv (status_msg Status_SUCCESS) accepting)
          (DeliverBlocks sample_Marshal [Ev_Check] (NewBlocksProvider ''ch''))) = Returned \<and>
   \<not> exited (step sample_Marshal (Ev_Recv (status_msg (Status_other 503)) accepting)
          (DeliverBlocks sample_Marshal [Ev_Check] (NewBlocksProvider ''ch''))) \<and>
   loc (step sample_Marshal Ev_Check
          (step sample_Marshal (Ev_Recv (status_msg (Status_other 503)) accepting)
             (DeliverBlocks sample_Marshal [Ev_Check] (NewBlocksProvider ''ch'')))) = InRecv"
proof -
  have h: "loc (DeliverBlocks sample_Marshal [Ev_Check] (NewBlocksProvider ''ch'')) = InRecv"
    by (simp add: DeliverBlocks_def NewBlocksProvider_def isDone_def)
  have r: "\<not> isDone (relay (DeliverBlocks sample_Marshal [Ev_Check] (NewBlocksProvider ''ch'')))"
    by (simp add: DeliverBlocks_def NewBlocksProvider_def isDone_def)
  from status_terminates_iff_success [OF h, of sample_Marshal Status_SUCCESS accepting "[]"]
    status_terminates_iff_success [OF h, of sample_Marshal "Status_other 503" accepting "[]"]
  show ?thesis
    unfolding Let_def using h r by simp
qed

subsection \<open>Unrecognized messages\<close>

text \<open>
  C6. A received message whose variant is neither the status case nor the block case makes
  \<^verbatim>\<open>DeliverBlocks\<close> log a warning and return; no further \<^verbatim>\<open>Recv\<close> is issued.
\<close>

theorem unrecognized_terminates:
  assumes "loc w = InRecv"
    and "\<forall>status. Type msg \<noteq> DeliverResponse_Status status"
    and "\<forall>blk. Type msg \<noteq> DeliverResponse_Block blk"
  shows "let w' = step M (Ev_Recv (Inr (Some msg)) rep) w in
           loc w' = Returned \<and>
           trace w' = trace w @ [Log Warning ''Received unknown: '' [Arg_msg (Type msg)], Call_Close] \<and>
           loc (run M es w') = Returned \<and>
           count_list (trace (run M es w')) Call_Recv = count_list (trace w) Call_Recv"
proof -
  define w' where "w' = step M (Ev_Recv (Inr (Some msg)) rep) w"
  have ty: "Type msg = DeliverResponse_unrecognized"
    using assms(2,3) by (cases "Type msg") simp_all
  have body: "DeliverBlocks_body M (relay w) (Inr (Some msg)) rep =
      ([Log Warning ''Received unknown: '' [Arg_msg (Type msg)]], Return)"
    by (simp add: DeliverBlocks_body_def ty)
  have l: "loc w' = Returned"
    and t: "trace w' = trace w @ [Log Warning ''Received unknown: '' [Arg_msg (Type msg)], Call_Close]"
    unfolding w'_def using step_received [OF assms(1), of M "Inr (Some msg)" rep]
    by (simp_all add: body)
  have "exited w'" by (simp add: exited_def l)
  from exited_quiet(1,2) [OF this, of M es] l t show ?thesis
    unfolding w'_def [symmetric] Let_def by simp
qed

theorem unrecognized_terminates_witness:
  "loc (DeliverBlocks sample_Marshal [Ev_Check] (NewBlocksProvider ''ch'')) = InRecv \<and>
   (\<forall>status. Type \<lparr>Type = DeliverResponse_unrecognized\<rparr> \<noteq> DeliverResponse_Status status) \<and>
   (\<forall>blk. Type \<lparr>Type = DeliverResponse_unrecognized\<rparr> \<noteq> DeliverResponse_Block blk) \<and>
   loc (step sample_Marshal (Ev_Recv (Inr (Some \<lparr>Type = DeliverResponse_unrecognized\<rparr>)) accepting)
          (DeliverBlocks sample_Marshal [Ev_Check] (NewBlocksProvider ''ch''))) = Returned \<and>
   trace (step sample_Marshal (Ev_Recv (Inr (Some \<lparr>Type = DeliverResponse_unrecognized\<rparr>)) accepting)
          (DeliverBlocks sample_Marshal [Ev_Check] (NewBlocksProvider ''ch''))) =
     [Call_Recv, Log Warning ''Received unknown: '' [Arg_msg DeliverResponse_unrecognized], Call_Close]"
proof -
  have h: "loc (DeliverBlocks sample_Marshal [Ev_Check] (NewBlocksProvider ''ch'')) = InRecv"
    by (simp add: DeliverBlocks_def NewBlocksProvider_def isDone_def)
  have t: "trace (DeliverBlocks sample_Marshal [Ev_Check] (NewBlocksProvider ''ch'')) = [Call_Recv]"
    by (simp add: DeliverBlocks_def NewBlocksProvider_def isDone_def)
  have s: "\<forall>status. Type \<lparr>Type = DeliverResponse_unrecognized\<rparr> \<noteq> DeliverResponse_Status status"
    and b: "\<forall>blk. Type \<lparr>Type = DeliverResponse_unrecognized\<rparr> \<noteq> DeliverResponse_Block blk"
    by simp_all
  from unrecognized_terminates [OF h s b, of sample_Marshal accepting "[]"]
  show ?thesis
    unfolding Let_def t using h by simp
qed

subsection \<open>Blocks without a header\<close>

text \<open>
  C9. In the block case the sequence number is read through
  \<^verbatim>\<open>t.Block.Header.Number\<close> first, with no nil guard. A block message whose block or
  whose header is nil therefore panics, whatever the serializer and the verifier would have
  said: nothing is logged, the verifier is never called, the deferred \<^verbatim>\<open>Close\<close> runs,
  and the loop does not go on to the next message as it does after a rejected block.
\<close>

theorem nil_header_panics:
  assumes "loc w = InRecv"
    and "blk = None \<or> (\<exists>block. blk = Some block \<and> Header block = None)"
  shows "let w' = step M (Ev_Recv (Inr (Some \<lparr>Type = DeliverResponse_Block blk\<rparr>)) rep) w in
           loc w' = Panicked \<and>
           trace w' = trace w @ [Call_Close] \<and>
           loc (run M es w') = Panicked \<and>
           count_list (trace (run M es w')) Call_Recv = count_list (trace w) Call_Recv \<and>
           verified (trace (run M es w')) = verified (trace w)"
proof -
  define w' where "w' = step M (Ev_Recv (Inr (Some \<lparr>Type = DeliverResponse_Block blk\<rparr>)) rep) w"
  have body: "DeliverBlocks_body M (relay w) (Inr (Some \<lparr>Type = DeliverResponse_Block blk\<rparr>)) rep =
                ([], Panic)"
    using assms(2) by (auto simp: DeliverBlocks_body_def)
  have l: "loc w' = Panicked" and t: "trace w' = trace w @ [Call_Close]"
    unfolding w'_def
    using step_received [OF assms(1), of M "Inr (Some \<lparr>Type = DeliverResponse_Block blk\<rparr>)" rep]
    by (simp_all add: body)
  have "exited w'" by (simp add: exited_def l)
  from exited_quiet(1,2,5) [OF this, of M es] l t show ?thesis
    unfolding w'_def [symmetric] Let_def by (simp add: verified_def)
qed

text \<open>A block with a body and no header, which the sample serializer would accept.\<close>

theorem nil_header_panics_witness:
  "loc (DeliverBlocks sample_Marshal [Ev_Check] (NewBlocksProvider ''ch'')) = InRecv \<and>
   (Some \<lparr>Header = None, BlockData = [''tx'']\<rparr> = None \<or>
    (\<exists>block. Some \<lparr>Header = None, BlockData = [''tx'']\<rparr> = Some block \<and> Header block = None)) \<and>
   loc (step sample_Marshal
          (Ev_Recv (Inr (Some \<lparr>Type = DeliverResponse_Block
                                   (Some \<lparr>Header = None, BlockData = [''tx'']\<rparr>)\<rparr>)) accepting)
          (DeliverBlocks sample_Marshal [Ev_Check] (NewBlocksProvider ''ch''))) = Panicked \<and>
   trace (step sample_Marshal
          (Ev_Recv (Inr (Some \<lparr>Type = DeliverResponse_Block
                                   (Some \<lparr>Header = None, BlockData = [''tx'']\<rparr>)\<rparr>)) accepting)
          (DeliverBlocks sample_Marshal [Ev_Check] (NewBlocksProvider ''ch''))) =
     [Call_Recv, Call_Close]"
proof -
  have h: "loc (DeliverBlocks sample_Marshal [Ev_Check] (NewBlocksProvider ''ch'')) = InRecv"
    by (simp add: DeliverBlocks_def NewBlocksProvider_def isDone_def)
  have t: "trace (DeliverBlocks sample_Marshal [Ev_Check] (NewBlocksProvider ''ch'')) = [Call_Recv]"
    by (simp add: DeliverBlocks_def NewBlocksProvider_def isDone_def)
  have n: "Some \<lparr>Header = None, BlockData = [''tx'']\<rparr> = None \<or>
    (\<exists>block. Some \<lparr>Header = None, BlockData = [''tx'']\<rparr> = Some block \<and> Header block = None)"
    by simp
  from nil_header_panics [OF h n, of sample_Marshal accepting "[]"]
  show ?thesis
    unfolding Let_def t using h n by simp
qed

subsection \<open>Accepted blocks\<close>

text \<open>
  C7. For a block that is serialized and accepted by the verifier, the payload handed to
  \<^verbatim>\<open>AddPayload\<close> is exactly the pair of the sequence number and the serialized block,
  and the message handed to \<^verbatim>\<open>Gossip\<close> wraps this payload, has the relay's channel
  identifier as its channel, the tag \<^verbatim>\<open>CHAN_AND_ORG\<close> and the nonce 0.
\<close>

theorem accepted_block_payload:
  assumes "loc w = InRecv"
    and "Header block = Some header" and "Marshal block = Inr marshaledBlock"
    and "VerifyBlock_reply rep = None"
  shows "let w' = step Marshal (Ev_Recv (block_msg block) rep) w;
             payload = \<lparr>SeqNum = Number header, Data = marshaledBlock\<rparr> in
           createPayload (Number header) marshaledBlock = payload \<and>
           added (trace w') = added (trace w) @ [payload] \<and>
           gossiped (trace w') = gossiped (trace w) @ [createGossipMsg (chainID (relay w)) payload] \<and>
           payload_of (createGossipMsg (chainID (relay w)) payload) = Some payload \<and>
           Channel (createGossipMsg (chainID (relay w)) payload) = chainID (relay w) \<and>
           Tag (createGossipMsg (chainID (relay w)) payload) = GossipMessage_CHAN_AND_ORG \<and>
           Nonce (createGossipMsg (chainID (relay w)) payload) = 0"
proof -
  define w' where "w' = step Marshal (Ev_Recv (block_msg block) rep) w"
  note acc = body_accepted [where Marshal = Marshal and b = "relay w", OF assms(2-4)]
  have p: "createPayload (Number header) marshaledBlock =
             \<lparr>SeqNum = Number header, Data = marshaledBlock\<rparr>"
    by (simp add: createPayload_def)
  have t: "trace w' = trace w @ fst (DeliverBlocks_body Marshal (relay w) (block_msg block) rep)"
    unfolding w'_def using step_received(3) [OF assms(1), of Marshal "block_msg block" rep]
    by (simp add: acc)
  have a: "added (trace w') = added (trace w) @ [createPayload (Number header) marshaledBlock]"
    unfolding t by (simp add: acc) (simp add: added_def)
  have g: "gossiped (trace w') = gossiped (trace w) @
             [createGossipMsg (chainID (relay w)) (createPayload (Number header) marshaledBlock)]"
    unfolding t by (simp add: acc) (simp add: gossiped_def)
  from a g show ?thesis
    unfolding w'_def [symmetric] Let_def p
    by (simp add: createGossipMsg_def payload_of_def)
qed

text \<open>Block 7 on channel \<open>ch\<close>, serialized to \<open>tx\<close>.\<close>

theorem accepted_block_payload_witness:
  "loc (DeliverBlocks sample_Marshal [Ev_Check] (NewBlocksProvider ''ch'')) = InRecv \<and>
   Header (sample_block 7) = Some \<lparr>Number = 7, PreviousHash = [], DataHash = []\<rparr> \<and>
   sample_Marshal (sample_block 7) = Inr ''tx'' \<and>
   VerifyBlock_reply accepting = None \<and>
   added (trace (step sample_Marshal (Ev_Recv (block_msg (sample_block 7)) accepting)
           (DeliverBlocks sample_Marshal [Ev_Check] (NewBlocksProvider ''ch'')))) =
     [\<lparr>SeqNum = 7, Data = ''tx''\<rparr>] \<and>
   gossiped (trace (step sample_Marshal (Ev_Recv (block_msg (sample_block 7)) accepting)
           (DeliverBlocks sample_Marshal [Ev_Check] (NewBlocksProvider ''ch'')))) =
     [\<lparr>Nonce = 0, Tag = GossipMessage_CHAN_AND_ORG, Channel = ''ch'',
       Content = Some (GossipMessage_DataMsg (Some \<lparr>Payload = Some \<lparr>SeqNum = 7, Data = ''tx''\<rparr>\<rparr>))\<rparr>]"
proof -
  have h: "loc (DeliverBlocks sample_Marshal [Ev_Check] (NewBlocksProvider ''ch'')) = InRecv"
    by (simp add: DeliverBlocks_def NewBlocksProvider_def isDone_def)
  have t: "trace (DeliverBlocks sample_Marshal [Ev_Check] (NewBlocksProvider ''ch'')) = [Call_Recv]"
    and r: "chainID (relay (DeliverBlocks sample_Marshal [Ev_Check] (NewBlocksProvider ''ch''))) = ''ch''"
    by (simp_all add: DeliverBlocks_def NewBlocksProvider_def isDone_def)
  have b: "Header (sample_block 7) = Some \<lparr>Number = 7, PreviousHash = [], DataHash = []\<rparr>"
    and m: "sample_Marshal (sample_block 7) = Inr ''tx''"
    and v: "VerifyBlock_reply accepting = None"
    by (simp_all add: sample_block_def sample_Marshal_def accepting_def)
  from accepted_block_payload [where Marshal = sample_Marshal, OF h b m v]
  show ?thesis
    unfolding Let_def t r using h b m v
    by (simp add: added_def gossiped_def createGossipMsg_def)
qed

subsection \<open>Blocks that fail serialization or verification\<close>

text \<open>
  C4. A block message whose serialization fails, or which the verifier rejects, adds no
  payload and gossips no message; \<^verbatim>\<open>DeliverBlocks\<close> does not terminate but is back at the
  head of the loop with the relay unchanged. Unless the relay has been stopped, the next
  message \<open>r'\<close> is received and handled by the body of the loop like any other: the failure
  on message \<open>n\<close> does not prevent the processing of message \<open>n + 1\<close>.
\<close>

theorem rejected_block_skipped:
  assumes "loc w = InRecv"
    and "Header block = Some header"
    and "isl (Marshal block) \<or> VerifyBlock_reply rep \<noteq> None"
  shows "let w' = step Marshal (Ev_Recv (block_msg block) rep) w;
             w'' = run Marshal [Ev_Check, Ev_Recv r' rep'] w' in
           loc w' = LoopHead \<and>
           relay w' = relay w \<and>
           added (trace w') = added (trace w) \<and>
           gossiped (trace w') = gossiped (trace w) \<and>
           (\<not> isDone (relay w) \<longrightarrow>
              trace w'' =
                trace w' @ [Call_Recv] @ fst (DeliverBlocks_body Marshal (relay w) r' rep') @
                (case snd (DeliverBlocks_body Marshal (relay w) r' rep') of
                   Continue \<Rightarrow> [] | Return \<Rightarrow> [Call_Close] | Panic \<Rightarrow> [Call_Close]))"
proof -
  define w' where "w' = step Marshal (Ev_Recv (block_msg block) rep) w"
  note rcv = step_received [OF assms(1), of Marshal "block_msg block" rep, folded w'_def]
  note rej = body_rejected [where Marshal = Marshal and b = "relay w", OF assms(2,3)]
  have l: "loc w' = LoopHead" and r: "relay w' = relay w"
    using rcv(1,2) by (simp_all add: rej(1))
  have a: "added (trace w') = added (trace w)" and g: "gossiped (trace w') = gossiped (trace w)"
    using rcv(3) by (simp_all add: rej)
  have n: "trace (run Marshal [Ev_Check, Ev_Recv r' rep'] w') =
             trace w' @ [Call_Recv] @ fst (DeliverBlocks_body Marshal (relay w) r' rep') @
             (case snd (DeliverBlocks_body Marshal (relay w) r' rep') of
                Continue \<Rightarrow> [] | Return \<Rightarrow> [Call_Close] | Panic \<Rightarrow> [Call_Close])"
    if "\<not> isDone (relay w)"
    using that l r by (simp add: split_beta)
  from l r a g n show ?thesis
    unfolding w'_def [symmetric] Let_def by simp
qed

text \<open>
  The scenario of the specification, continued: block 5 is rejected by the verifier, nothing
  is added, and block 6, which is accepted, is added next.
\<close>

theorem rejected_block_skipped_witness:
  "loc (DeliverBlocks sample_Marshal [Ev_Check] (NewBlocksProvider ''ch'')) = InRecv \<and>
   Header (sample_block 5) = Some \<lparr>Number = 5, PreviousHash = [], DataHash = []\<rparr> \<and>
   VerifyBlock_reply rejecting = Some ''bad signature'' \<and>
   loc (step sample_Marshal (Ev_Recv (block_msg (sample_block 5)) rejecting)
          (DeliverBlocks sample_Marshal [Ev_Check] (NewBlocksProvider ''ch''))) = LoopHead \<and>
   added (trace (step sample_Marshal (Ev_Recv (block_msg (sample_block 5)) rejecting)
          (DeliverBlocks sample_Marshal [Ev_Check] (NewBlocksProvider ''ch'')))) = [] \<and>
   added (trace (run sample_Marshal [Ev_Check, Ev_Recv (block_msg (sample_block 6)) accepting]
          (step sample_Marshal (Ev_Recv (block_msg (sample_block 5)) rejecting)
             (DeliverBlocks sample_Marshal [Ev_Check] (NewBlocksProvider ''ch''))))) =
     [\<lparr>SeqNum = 6, Data = ''tx''\<rparr>]"
proof -
  let ?w = "DeliverBlocks sample_Marshal [Ev_Check] (NewBlocksProvider ''ch'')"
  let ?w' = "step sample_Marshal (Ev_Recv (block_msg (sample_block 5)) rejecting) ?w"
  let ?w'' = "run sample_Marshal [Ev_Check, Ev_Recv (block_msg (sample_block 6)) accepting] ?w'"
  have h: "loc ?w = InRecv" and t: "trace ?w = [Call_Recv]"
    and r: "relay ?w = \<lparr>chainID = ''ch'', done_flag = 0\<rparr>"
    by (simp_all add: DeliverBlocks_def NewBlocksProvider_def isDone_def)
  have b: "Header (sample_block 5) = Some \<lparr>Number = 5, PreviousHash = [], DataHash = []\<rparr>"
    and f: "isl (sample_Marshal (sample_block 5)) \<or> VerifyBlock_reply rejecting \<noteq> None"
    by (simp_all add: sample_block_def rejecting_def)
  have nd: "\<not> isDone (relay ?w)"
    by (simp add: r isDone_def)
  have next_block: "Header (sample_block 6) = Some \<lparr>Number = 6, PreviousHash = [], DataHash = []\<rparr>"
    "sample_Marshal (sample_block 6) = Inr ''tx''" "VerifyBlock_reply accepting = None"
    by (simp_all add: sample_block_def sample_Marshal_def accepting_def)
  note next_body = body_accepted [where Marshal = sample_Marshal and b = "relay ?w", OF next_block]
  note skipped = rejected_block_skipped [where Marshal = sample_Marshal, OF h b f,
      of "block_msg (sample_block 6)" accepting, unfolded Let_def]
  from skipped have l: "loc ?w' = LoopHead" and a: "added (trace ?w') = added (trace ?w)"
    by blast+
  from skipped nd have "trace ?w'' =
      trace ?w' @ [Call_Recv] @
      fst (DeliverBlocks_body sample_Marshal (relay ?w) (block_msg (sample_block 6)) accepting) @
      (case snd (DeliverBlocks_body sample_Marshal (relay ?w) (block_msg (sample_block 6)) accepting) of
         Continue \<Rightarrow> [] | Return \<Rightarrow> [Call_Close] | Panic \<Rightarrow> [Call_Close])"
    by blast
  then have "added (trace ?w'') =
      added (trace ?w') @ [createPayload (Number \<lparr>Number = 6, PreviousHash = [], DataHash = []\<rparr>) ''tx'']"
    unfolding next_body by (simp del: step.simps run.simps) (simp add: added_def)
  then have a'': "added (trace ?w'') = [\<lparr>SeqNum = 6, Data = ''tx''\<rparr>]"
    unfolding a t by (simp add: added_def createPayload_def)
  have a': "added (trace ?w') = []"
    unfolding a t by (simp add: added_def)
  have v: "VerifyBlock_reply rejecting = Some ''bad signature''"
    by (simp add: rejecting_def)
  from h b v l a' a'' show ?thesis by blast
qed

subsection \<open>Closing the stream\<close>

text \<open>Each step keeps the books: a \<^verbatim>\<open>Close\<close> for every \<^verbatim>\<open>Stop\<close>, and one for the exit.\<close>

lemma step_closes:
  "count_list (trace (step M e w)) Call_Close + (if exited w then 1 else 0) =
   count_list (trace w) Call_Close + (if e = Ev_Stop then 1 else 0) +
   (if exited (step M e w) then 1 else 0)"
proof (cases e)
  case Ev_Stop
  then show ?thesis by (simp add: exited_def)
next
  case Ev_Check
  then show ?thesis by (simp add: exited_def)
next
  case (Ev_Recv r rep)
  show ?thesis
  proof (cases "loc w = InRecv")
    case True
    from step_received(2,3) [OF True, of M r rep] body_no_stream_call(1) [of M "relay w" r rep]
    show ?thesis unfolding Ev_Recv
      by (cases "snd (DeliverBlocks_body M (relay w) r rep)") (simp_all add: exited_def True)
  next
    case False
    then show ?thesis by (simp add: Ev_Recv)
  qed
qed

lemma run_closes:
  "count_list (trace (run M es w)) Call_Close + (if exited w then 1 else 0) =
   count_list (trace w) Call_Close + count_list es Ev_Stop +
   (if exited (run M es w) then 1 else 0)"
proof (induction es arbitrary: w)
  case Nil
  then show ?case by simp
next
  case (Cons e es)
  from Cons.IH [of "step M e w"] step_closes [of M e w]
  show ?case by (simp split: if_splits)
qed

text \<open>
  C2, as the code has it. \<^verbatim>\<open>DeliverBlocks\<close> invokes \<^verbatim>\<open>Close\<close> exactly once when it
  leaves, however it leaves (the flag seen set at the loop head, a receive error, a success
  status, an unrecognized message, a panic), and never while it is running; every call of
  \<^verbatim>\<open>Stop\<close> invokes \<^verbatim>\<open>Close\<close> once more. The number of \<^verbatim>\<open>Close\<close> calls on the
  stream client is the number of \<^verbatim>\<open>Stop\<close> calls, plus one once \<^verbatim>\<open>DeliverBlocks\<close>
  has left.
\<close>

theorem Close_per_exit_and_per_Stop:
  "count_list (trace (DeliverBlocks M es b)) Call_Close =
   count_list es Ev_Stop + (if exited (DeliverBlocks M es b) then 1 else 0)"
  using run_closes [of M es "\<lparr>relay = b, loc = LoopHead, trace = []\<rparr>"]
  by (simp add: DeliverBlocks_def exited_def)

text \<open>
  C2, as stated, fails on the normal stop: \<^verbatim>\<open>Stop\<close> is called while the loop is blocked
  in \<^verbatim>\<open>Recv\<close>, which then returns an error. \<^verbatim>\<open>Stop\<close> has closed the stream, and the
  deferred call closes it a second time.
\<close>

theorem Close_twice_on_Stop:
  "exited (DeliverBlocks sample_Marshal [Ev_Check, Ev_Stop, Ev_Recv (Inl ''EOF'') accepting]
             (NewBlocksProvider ''ch'')) \<and>
   trace (DeliverBlocks sample_Marshal [Ev_Check, Ev_Stop, Ev_Recv (Inl ''EOF'') accepting]
             (NewBlocksProvider ''ch'')) =
     [Call_Recv, Call_Close, Log Warning ''Receive error: %s'' [Arg_string ''EOF''], Call_Close] \<and>
   count_list (trace (DeliverBlocks sample_Marshal [Ev_Check, Ev_Stop, Ev_Recv (Inl ''EOF'') accepting]
             (NewBlocksProvider ''ch''))) Call_Close \<noteq> 1"
  by (simp add: DeliverBlocks_def NewBlocksProvider_def isDone_def exited_def
      DeliverBlocks_body_def)

subsection \<open>The liveness flag\<close>

lemma step_relay:
  "relay (step M e w) = (if e = Ev_Stop then (relay w)\<lparr>done_flag := 1\<rparr> else relay w)"
  by (cases e) (simp_all add: Stop_def split_beta)

lemma run_relay:
  "relay (run M es w) = (if Ev_Stop \<in> set es then (relay w)\<lparr>done_flag := 1\<rparr> else relay w)"
  by (induction es arbitrary: w) (auto simp: step_relay)

text \<open>
  C10. The flag is 0 in a relay built by \<^verbatim>\<open>NewBlocksProvider\<close>, which is therefore not
  done. Whatever is scheduled, the flag afterwards is 1 if \<^verbatim>\<open>Stop\<close> was called and is
  what it was otherwise, and the channel identifier never changes: the store in \<^verbatim>\<open>Stop\<close>
  is the only write. So a relay that is done stays done; \<^verbatim>\<open>Stop\<close> makes it done, and a
  second \<^verbatim>\<open>Stop\<close> leaves the relay as the first one left it.
\<close>

theorem done_flag_monotone:
  "done_flag (NewBlocksProvider c) = 0 \<and>
   \<not> isDone (NewBlocksProvider c) \<and>
   done_flag (relay (run M es w)) = (if Ev_Stop \<in> set es then 1 else done_flag (relay w)) \<and>
   chainID (relay (run M es w)) = chainID (relay w) \<and>
   (isDone (relay w) \<longrightarrow> isDone (relay (run M es w))) \<and>
   isDone (relay (Stop w)) \<and>
   relay (Stop (Stop w)) = relay (Stop w)"
  by (simp add: NewBlocksProvider_def isDone_def run_relay Stop_def)

text \<open>
  A relay stopped before \<^verbatim>\<open>DeliverBlocks\<close> starts is done, and so it is after more
  steps of the loop and another \<^verbatim>\<open>Stop\<close>.
\<close>

theorem done_flag_monotone_witness:
  "isDone (relay (Stop \<lparr>relay = NewBlocksProvider ''ch'', loc = LoopHead, trace = []\<rparr>)) \<and>
   isDone (relay (run sample_Marshal [Ev_Check, Ev_Stop, Ev_Recv (Inl ''EOF'') accepting]
                    (Stop \<lparr>relay = NewBlocksProvider ''ch'', loc = LoopHead, trace = []\<rparr>))) \<and>
   \<not> isDone (NewBlocksProvider ''ch'')"
proof -
  let ?w = "\<lparr>relay = NewBlocksProvider ''ch'', loc = LoopHead, trace = []\<rparr>"
  note mono = done_flag_monotone [of "''ch''" sample_Marshal
      "[Ev_Check, Ev_Stop, Ev_Recv (Inl ''EOF'') accepting]" "Stop ?w"]
  have d: "isDone (relay (Stop ?w))"
    by (simp add: isDone_def)
  from mono d show ?thesis by blast
qed

subsection \<open>Membership size and the result of the local add\<close>

text \<open>
  The body of the loop reads the replies of \<^verbatim>\<open>PeersOfChannel\<close> and \<^verbatim>\<open>AddPayload\<close>
  for its log lines only.
\<close>

lemma body_forget:
  assumes "VerifyBlock_reply rep = VerifyBlock_reply rep'"
  shows "snd (DeliverBlocks_body M b r rep) = snd (DeliverBlocks_body M b r rep')"
    and "calls (fst (DeliverBlocks_body M b r rep)) = calls (fst (DeliverBlocks_body M b r rep'))"
  using assms
  by (simp_all add: DeliverBlocks_body_def calls_def Let_def
      split: sum.split option.split isDeliverResponse_Type.split)

lemma forget_replies_eq:
  "forget_replies rep = forget_replies rep' \<Longrightarrow> VerifyBlock_reply rep = VerifyBlock_reply rep'"
  by (cases rep, cases rep') (simp add: forget_replies_def)

lemma step_forget:
  assumes "forget e = forget e'"
    and "loc w = loc w'" "relay w = relay w'" "calls (trace w) = calls (trace w')"
  shows "loc (step M e w) = loc (step M e' w') \<and>
         relay (step M e w) = relay (step M e' w') \<and>
         calls (trace (step M e w)) = calls (trace (step M e' w'))"
proof (cases e)
  case Ev_Stop
  with assms(1) have "e' = Ev_Stop" by (cases e') simp_all
  with Ev_Stop assms(2-4) show ?thesis by (simp add: Stop_def)
next
  case Ev_Check
  with assms(1) have "e' = Ev_Check" by (cases e') simp_all
  with Ev_Check assms(2-4) show ?thesis by simp
next
  case (Ev_Recv r rep)
  with assms(1) obtain rep' where e': "e' = Ev_Recv r rep'"
    and fr: "forget_replies rep = forget_replies rep'"
    by (cases e') simp_all
  have v: "VerifyBlock_reply rep = VerifyBlock_reply rep'"
    using fr by (rule forget_replies_eq)
  show ?thesis
  proof (cases "loc w = InRecv")
    case True
    then have True': "loc w' = InRecv" using assms(2) by simp
    let ?B = "DeliverBlocks_body M (relay w) r rep"
    let ?B' = "DeliverBlocks_body M (relay w) r rep'"
    have s: "snd ?B = snd ?B'" and c: "calls (fst ?B) = calls (fst ?B')"
      by (rule body_forget [OF v])+
    note A = step_received [OF True, of M r rep]
    note B = step_received [OF True', of M r rep', folded assms(3)]
    have "loc (step M (Ev_Recv r rep) w) = loc (step M (Ev_Recv r rep') w')"
      unfolding A(2) B(2) s ..
    moreover have "relay (step M (Ev_Recv r rep) w) = relay (step M (Ev_Recv r rep') w')"
      unfolding A(1) B(1) ..
    moreover have "calls (trace (step M (Ev_Recv r rep) w)) =
                   calls (trace (step M (Ev_Recv r rep') w'))"
      unfolding A(3) B(3) reading_append s c assms(4) ..
    ultimately show ?thesis unfolding Ev_Recv e' by blast
  next
    case False
    then have False': "loc w' \<noteq> InRecv" using assms(2) by simp
    have "step M (Ev_Recv r rep) w = w" "step M (Ev_Recv r rep') w' = w'"
      using False False' by simp_all
    then show ?thesis unfolding Ev_Recv e' using assms(2-4) by simp
  qed
qed

lemma run_forget:
  assumes "map forget es = map forget es'"
    and "loc w = loc w'" "relay w = relay w'" "calls (trace w) = calls (trace w')"
  shows "loc (run M es w) = loc (run M es' w') \<and>
         relay (run M es w) = relay (run M es' w') \<and>
         calls (trace (run M es w)) = calls (trace (run M es' w'))"
  using assms
proof (induction es arbitrary: es' w w')
  case Nil
  then show ?case by simp
next
  case (Cons e es)
  from Cons.prems(1) obtain e' es'' where es': "es' = e' # es''"
    and e: "forget e = forget e'" and rest: "map forget es = map forget es''"
    by (cases es') simp_all
  from step_forget [OF e Cons.prems(2-4), of M]
  have "loc (run M es (step M e w)) = loc (run M es'' (step M e' w')) \<and>
        relay (run M es (step M e w)) = relay (run M es'' (step M e' w')) \<and>
        calls (trace (run M es (step M e w))) = calls (trace (run M es'' (step M e' w')))"
    by (intro Cons.IH [OF rest]) simp_all
  then show ?case by (simp add: es')
qed

text \<open>
  C8. Take two schedules that are the same up to what \<^verbatim>\<open>PeersOfChannel\<close> and
  \<^verbatim>\<open>AddPayload\<close> return: the same messages, the same verdicts, the same calls of
  \<^verbatim>\<open>Stop\<close> at the same places. After every number \<open>n\<close> of events the two runs are
  at the same place of the program and have made the same calls on their collaborators,
  with the same arguments; in particular the payloads added and the messages gossiped are
  the same. (The log lines differ: they print the number of peers.)
\<close>

theorem peers_and_add_result_unobserved:
  assumes "map forget es = map forget es'"
  shows "loc (DeliverBlocks M (take n es) b) = loc (DeliverBlocks M (take n es') b) \<and>
         calls (trace (DeliverBlocks M (take n es) b)) =
           calls (trace (DeliverBlocks M (take n es') b)) \<and>
         added (trace (DeliverBlocks M (take n es) b)) =
           added (trace (DeliverBlocks M (take n es') b)) \<and>
         gossiped (trace (DeliverBlocks M (take n es) b)) =
           gossiped (trace (DeliverBlocks M (take n es') b))"
proof -
  have "map forget (take n es) = map forget (take n es')"
    using assms by (simp add: take_map [symmetric])
  from run_forget [OF this, of "\<lparr>relay = b, loc = LoopHead, trace = []\<rparr>"
      "\<lparr>relay = b, loc = LoopHead, trace = []\<rparr>" M]
  have l: "loc (DeliverBlocks M (take n es) b) = loc (DeliverBlocks M (take n es') b)"
    and c: "calls (trace (DeliverBlocks M (take n es) b)) =
            calls (trace (DeliverBlocks M (take n es') b))"
    by (simp_all add: DeliverBlocks_def)
  show ?thesis
    using l c reading_calls [of "trace (DeliverBlocks M (take n es) b)"]
      reading_calls [of "trace (DeliverBlocks M (take n es') b)"]
    by simp
qed

text \<open>
  One accepted block, delivered once to a channel without peers whose buffer takes the
  payload, and once to a channel with a peer whose buffer refuses it.
\<close>

theorem peers_and_add_result_unobserved_witness:
  "map forget [Ev_Check, Ev_Recv (block_msg (sample_block 1)) accepting] =
   map forget [Ev_Check, Ev_Recv (block_msg (sample_block 1))
      \<lparr>VerifyBlock_reply = None,
       PeersOfChannel_reply = [\<lparr>Endpoint = ''peer0:7051'', PKIid = ''p0''\<rparr>],
       AddPayload_reply = Some ''buffer full''\<rparr>] \<and>
   calls (trace (DeliverBlocks sample_Marshal
      [Ev_Check, Ev_Recv (block_msg (sample_block 1)) accepting] (NewBlocksProvider ''ch''))) =
   calls (trace (DeliverBlocks sample_Marshal
      [Ev_Check, Ev_Recv (block_msg (sample_block 1))
         \<lparr>VerifyBlock_reply = None,
          PeersOfChannel_reply = [\<lparr>Endpoint = ''peer0:7051'', PKIid = ''p0''\<rparr>],
          AddPayload_reply = Some ''buffer full''\<rparr>] (NewBlocksProvider ''ch''))) \<and>
   added (trace (DeliverBlocks sample_Marshal
      [Ev_Check, Ev_Recv (block_msg (sample_block 1))
         \<lparr>VerifyBlock_reply = None,
          PeersOfChannel_reply = [\<lparr>Endpoint = ''peer0:7051'', PKIid = ''p0''\<rparr>],
          AddPayload_reply = Some ''buffer full''\<rparr>] (NewBlocksProvider ''ch''))) =
   added (trace (DeliverBlocks sample_Marshal
      [Ev_Check, Ev_Recv (block_msg (sample_block 1)) accepting] (NewBlocksProvider ''ch'')))"
proof -
  let ?es = "[Ev_Check, Ev_Recv (block_msg (sample_block 1)) accepting]"
  let ?es' = "[Ev_Check, Ev_Recv (block_msg (sample_block 1))
      \<lparr>VerifyBlock_reply = None,
       PeersOfChannel_reply = [\<lparr>Endpoint = ''peer0:7051'', PKIid = ''p0''\<rparr>],
       AddPayload_reply = Some ''buffer full''\<rparr>]"
  have h: "map forget ?es = map forget ?es'"
    by (simp add: forget_replies_def accepting_def)
  have "take 2 ?es = ?es" "take 2 ?es' = ?es'"
    by simp_all
  with peers_and_add_result_unobserved [OF h, of sample_Marshal 2 "NewBlocksProvider ''ch''"] h
  show ?thesis by metis
qed

subsection \<open>Blocks relayed in the order received\<close>

text \<open>One undisturbed iteration on a block that is serialized and accepted.\<close>

lemma run_delivery_accepted:
  assumes "loc w = LoopHead" and "\<not> isDone (relay w)"
    and "Header (fst item) = Some header" and "Marshal (fst item) = Inr marshaledBlock"
    and "VerifyBlock_reply (snd item) = None"
  shows "loc (run Marshal (delivery item) w) = LoopHead"
    and "relay (run Marshal (delivery item) w) = relay w"
    and "calls (trace (run Marshal (delivery item) w)) =
           calls (trace w) @
           [Call_Recv,
            Call_VerifyBlock (chainID (relay w)) (Number header) marshaledBlock,
            Call_PeersOfChannel (chainID (relay w)),
            Call_AddPayload (chainID (relay w)) (createPayload (Number header) marshaledBlock),
            Call_Gossip (createGossipMsg (chainID (relay w))
              (createPayload (Number header) marshaledBlock))]"
proof -
  note acc = body_accepted [where Marshal = Marshal and b = "relay w", OF assms(3-5)]
  show "loc (run Marshal (delivery item) w) = LoopHead"
    and "relay (run Marshal (delivery item) w) = relay w"
    and "calls (trace (run Marshal (delivery item) w)) =
           calls (trace w) @
           [Call_Recv,
            Call_VerifyBlock (chainID (relay w)) (Number header) marshaledBlock,
            Call_PeersOfChannel (chainID (relay w)),
            Call_AddPayload (chainID (relay w)) (createPayload (Number header) marshaledBlock),
            Call_Gossip (createGossipMsg (chainID (relay w))
              (createPayload (Number header) marshaledBlock))]"
    using assms(1,2) by (simp_all add: delivery_def acc) (simp add: calls_def)
qed

lemma run_deliveries_accepted:
  assumes "\<forall>item \<in> set items.
             Header (fst item) \<noteq> None \<and> \<not> isl (Marshal (fst item)) \<and>
             VerifyBlock_reply (snd item) = None"
    and "loc w = LoopHead" and "\<not> isDone (relay w)"
  shows "loc (run Marshal (deliveries items) w) = LoopHead \<and>
         calls (trace (run Marshal (deliveries items) w)) =
           calls (trace w) @
           concat (map (\<lambda>item.
             [Call_Recv,
              Call_VerifyBlock (chainID (relay w)) (Number (the (Header (fst item))))
                (projr (Marshal (fst item))),
              Call_PeersOfChannel (chainID (relay w)),
              Call_AddPayload (chainID (relay w))
                (createPayload (Number (the (Header (fst item)))) (projr (Marshal (fst item)))),
              Call_Gossip (createGossipMsg (chainID (relay w))
                (createPayload (Number (the (Header (fst item)))) (projr (Marshal (fst item)))))])
             items)"
  using assms
proof (induction items arbitrary: w)
  case Nil
  then show ?case by (simp add: deliveries_def)
next
  case (Cons item items)
  from Cons.prems(1) obtain header marshaledBlock
    where h: "Header (fst item) = Some header" and m: "Marshal (fst item) = Inr marshaledBlock"
      and v: "VerifyBlock_reply (snd item) = None"
    by (cases "Marshal (fst item)") auto
  note one = run_delivery_accepted [where Marshal = Marshal, OF Cons.prems(2,3) h m v]
  have rest: "\<forall>item \<in> set items.
             Header (fst item) \<noteq> None \<and> \<not> isl (Marshal (fst item)) \<and>
             VerifyBlock_reply (snd item) = None"
    using Cons.prems(1) by simp
  have nd: "\<not> isDone (relay (run Marshal (delivery item) w))"
    using Cons.prems(3) by (simp add: one(2))
  have split: "run Marshal (deliveries (item # items)) w =
               run Marshal (deliveries items) (run Marshal (delivery item) w)"
    by (simp add: deliveries_def run_append)
  from Cons.IH [OF rest one(1) nd] show ?case
    unfolding split by (simp add: one(2,3) h m)
qed

text \<open>
  C1. Let a relay fresh from \<^verbatim>\<open>NewBlocksProvider\<close> receive a sequence of block
  messages, each with a header, each serialized without error and accepted by the verifier.
  Then the sequence numbers presented to the verifier are those of the blocks, in the order
  received; \<^verbatim>\<open>AddPayload\<close> is called exactly once per block, with the payload of that
  block, in the same order; \<^verbatim>\<open>Gossip\<close> is called exactly once per payload, with the
  message that wraps it, in the same order. The calls for one block are all made before the
  next block is received, and the loop is still running at the end.
\<close>

theorem blocks_relayed_in_order:
  assumes "\<forall>item \<in> set items.
             Header (fst item) \<noteq> None \<and> \<not> isl (Marshal (fst item)) \<and>
             VerifyBlock_reply (snd item) = None"
  shows "let w = DeliverBlocks Marshal (deliveries items) (NewBlocksProvider c);
             seqNums = map (\<lambda>item. Number (the (Header (fst item)))) items;
             payloads = map (\<lambda>item. createPayload (Number (the (Header (fst item))))
                                     (projr (Marshal (fst item)))) items
         in loc w = LoopHead \<and>
            verified (trace w) = seqNums \<and>
            added (trace w) = payloads \<and>
            gossiped (trace w) = map (createGossipMsg c) payloads \<and>
            map SeqNum (added (trace w)) = seqNums \<and>
            map payload_of (gossiped (trace w)) = map Some (added (trace w)) \<and>
            length (added (trace w)) = length items \<and>
            length (gossiped (trace w)) = length items \<and>
            calls (trace w) =
              concat (map (\<lambda>item.
                [Call_Recv,
                 Call_VerifyBlock c (Number (the (Header (fst item)))) (projr (Marshal (fst item))),
                 Call_PeersOfChannel c,
                 Call_AddPayload c
                   (createPayload (Number (the (Header (fst item)))) (projr (Marshal (fst item)))),
                 Call_Gossip (createGossipMsg c
                   (createPayload (Number (the (Header (fst item)))) (projr (Marshal (fst item)))))])
                items)"
proof -
  define w where "w = DeliverBlocks Marshal (deliveries items) (NewBlocksProvider c)"
  define n where "n = (\<lambda>item :: Block \<times> replies. Number (the (Header (fst item))))"
  define p where "p = (\<lambda>item :: Block \<times> replies.
                         createPayload (Number (the (Header (fst item)))) (projr (Marshal (fst item))))"
  define per where "per = (\<lambda>item :: Block \<times> replies.
     [Call_Recv,
      Call_VerifyBlock c (Number (the (Header (fst item)))) (projr (Marshal (fst item))),
      Call_PeersOfChannel c,
      Call_AddPayload c (p item),
      Call_Gossip (createGossipMsg c (p item))])"
  have start: "loc \<lparr>relay = NewBlocksProvider c, loc = LoopHead, trace = []\<rparr> = LoopHead"
    "\<not> isDone (relay \<lparr>relay = NewBlocksProvider c, loc = LoopHead, trace = []\<rparr>)"
    by (simp_all add: isDone_def NewBlocksProvider_def)
  from run_deliveries_accepted [OF assms start]
  have l: "loc w = LoopHead" and c: "calls (trace w) = concat (map per items)"
    by (simp_all add: w_def DeliverBlocks_def per_def p_def NewBlocksProvider_def calls_def)
  have v: "verified (concat (map per xs)) = map n xs"
    and a: "added (concat (map per xs)) = map p xs"
    and g: "gossiped (concat (map per xs)) = map (createGossipMsg c) (map p xs)" for xs
    by (induction xs) (simp_all add: per_def n_def verified_def added_def gossiped_def)
  have v': "verified (trace w) = map n items" and a': "added (trace w) = map p items"
    and g': "gossiped (trace w) = map (createGossipMsg c) (map p items)"
    using reading_calls [of "trace w"] by (simp_all add: c v a g)
  have s: "map SeqNum (map p items) = map n items"
    by (simp add: p_def n_def createPayload_def)
  have po: "map payload_of (map (createGossipMsg c) (map p items)) = map Some (map p items)"
    by (simp add: payload_of_def createGossipMsg_def)
  show ?thesis
    unfolding Let_def w_def [symmetric] n_def [symmetric] p_def [symmetric]
    using l c v' a' g' s po by (simp add: per_def) (simp add: p_def)
qed

text \<open>
  The scenario of the specification: blocks 1 and 2 arrive and are accepted; two payloads
  are added and gossiped, for 1 and then for 2.
\<close>

theorem blocks_relayed_in_order_witness:
  "Header (sample_block 1) = Some \<lparr>Number = 1, PreviousHash = [], DataHash = []\<rparr> \<and>
   Header (sample_block 2) = Some \<lparr>Number = 2, PreviousHash = [], DataHash = []\<rparr> \<and>
   sample_Marshal (sample_block 1) = Inr ''tx'' \<and>
   sample_Marshal (sample_block 2) = Inr ''tx'' \<and>
   VerifyBlock_reply accepting = None \<and>
   verified (trace (DeliverBlocks sample_Marshal
      (deliveries [(sample_block 1, accepting), (sample_block 2, accepting)])
      (NewBlocksProvider ''ch''))) = [1, 2] \<and>
   added (trace (DeliverBlocks sample_Marshal
      (deliveries [(sample_block 1, accepting), (sample_block 2, accepting)])
      (NewBlocksProvider ''ch''))) = [\<lparr>SeqNum = 1, Data = ''tx''\<rparr>, \<lparr>SeqNum = 2, Data = ''tx''\<rparr>] \<and>
   map payload_of (gossiped (trace (DeliverBlocks sample_Marshal
      (deliveries [(sample_block 1, accepting), (sample_block 2, accepting)])
      (NewBlocksProvider ''ch'')))) =
     [Some \<lparr>SeqNum = 1, Data = ''tx''\<rparr>, Some \<lparr>SeqNum = 2, Data = ''tx''\<rparr>]"
proof -
  let ?items = "[(sample_block 1, accepting), (sample_block 2, accepting)]"
  let ?w = "DeliverBlocks sample_Marshal (deliveries ?items) (NewBlocksProvider ''ch'')"
  have h: "\<forall>item \<in> set ?items.
      Header (fst item) \<noteq> None \<and> \<not> isl (sample_Marshal (fst item)) \<and>
      VerifyBlock_reply (snd item) = None"
    by (simp add: sample_block_def sample_Marshal_def accepting_def)
  note ordered = blocks_relayed_in_order [OF h, of "''ch''", unfolded Let_def]
  from ordered have "verified (trace ?w) = map (\<lambda>item. Number (the (Header (fst item)))) ?items"
    by blast
  then have v: "verified (trace ?w) = [1, 2]"
    by (simp add: sample_block_def)
  from ordered have "added (trace ?w) =
      map (\<lambda>item. createPayload (Number (the (Header (fst item))))
                     (projr (sample_Marshal (fst item)))) ?items"
    by blast
  then have a: "added (trace ?w) = [\<lparr>SeqNum = 1, Data = ''tx''\<rparr>, \<lparr>SeqNum = 2, Data = ''tx''\<rparr>]"
    by (simp add: sample_block_def sample_Marshal_def createPayload_def)
  from ordered have "map payload_of (gossiped (trace ?w)) = map Some (added (trace ?w))"
    by blast
  then have g: "map payload_of (gossiped (trace ?w)) =
      [Some \<lparr>SeqNum = 1, Data = ''tx''\<rparr>, Some \<lparr>SeqNum = 2, Data = ''tx''\<rparr>]"
    unfolding a by simp
  have b: "Header (sample_block 1) = Some \<lparr>Number = 1, PreviousHash = [], DataHash = []\<rparr>"
    "Header (sample_block 2) = Some \<lparr>Number = 2, PreviousHash = [], DataHash = []\<rparr>"
    "sample_Marshal (sample_block 1) = Inr ''tx''" "sample_Marshal (sample_block 2) = Inr ''tx''"
    "VerifyBlock_reply accepting = None"
    by (simp_all add: sample_block_def sample_Marshal_def accepting_def)
  from b v a g show ?thesis by blast
qed

end
